theory Spec2Isabelle
  imports Main
begin

section \<open>Data model (apps/api/models.py)\<close>

text \<open>
  Each SQLAlchemy model is a record; a table is the list of its rows in insertion order.
  Integer columns and request parameters are Python ints, hence \<open>int\<close>. A nullable
  string column is a \<open>string option\<close>. A \<open>created_at\<close> column holds the value of
  \<open>datetime.utcnow\<close> at the insert, modelled as a reading of a clock counted in ticks.
  Record fields carry a prefix because two records cannot share a field name.
\<close>

type_synonym datetime = nat

record user =
  u_id :: int
  u_email :: string
  u_password_hash :: string
  u_is_active :: bool
  u_created_at :: datetime

record tenant =
  t_id :: int
  t_name :: string
  t_created_at :: datetime

record user_tenant =
  ut_id :: int
  ut_user_id :: int
  ut_tenant_id :: int
  ut_role :: string

record asset =
  a_id :: int
  a_tenant_id :: int
  a_type :: string
  a_name :: string
  a_region :: "string option"
  a_config_json :: "string option"
  a_created_at :: datetime

record finding =
  f_id :: int
  f_tenant_id :: int
  f_asset_id :: int
  f_severity :: string
  f_title :: string
  f_description :: "string option"
  f_status :: string
  f_created_at :: datetime

text \<open>
  A \<open>Finding(...)\<close> object as \<open>run_checks\<close> constructs it, before the flush gives it
  a primary key and a creation time.
\<close>

record finding_new =
  n_tenant_id :: int
  n_asset_id :: int
  n_severity :: string
  n_title :: string
  n_description :: "string option"
  n_status :: string

text \<open>
  The committed database: the five tables, the next value of each primary-key sequence
  (a sequence starts at 1 and is never rewound), and the clock that \<open>datetime.utcnow\<close>
  reads; every reading advances it by one tick.
\<close>

record db =
  users :: "user list"
  tenants :: "tenant list"
  user_tenants :: "user_tenant list"
  assets :: "asset list"
  findings :: "finding list"
  users_seq :: int
  tenants_seq :: int
  user_tenants_seq :: int
  assets_seq :: int
  findings_seq :: int
  clock :: datetime

definition empty_db :: db where
  "empty_db = \<lparr>users = [], tenants = [], user_tenants = [], assets = [], findings = [],
     users_seq = 1, tenants_seq = 1, user_tenants_seq = 1, assets_seq = 1, findings_seq = 1,
     clock = 0\<rparr>"

section \<open>Request schemas (apps/api/schemas.py)\<close>

text \<open>
  \<open>AssetCreate\<close>. The \<open>config_json\<close> field is held here as the text that
  \<open>json.dumps\<close> makes of the dictionary, which is what \<open>create_asset\<close> stores.
\<close>

record asset_create =
  ac_tenant_id :: int
  ac_type :: string
  ac_name :: string
  ac_region :: "string option"
  ac_config_json :: "string option"

section \<open>Errors\<close>

text \<open>
  \<open>HTTPException(status_code, detail)\<close> as the handlers raise it, and the 422 response
  with which FastAPI rejects a request whose parameter breaks a declared constraint
  before the handler body runs.
\<close>

datatype error = HTTPException int string | RequestValidationError

section \<open>Helpers (apps/api/main.py)\<close>

text \<open>\<open>query.filter(p).first()\<close> is \<^const>\<open>find\<close> on the table.\<close>

definition get_user_by_email :: "db \<Rightarrow> string \<Rightarrow> user option" where
  "get_user_by_email d email = find (\<lambda>u. u_email u = email) (users d)"

definition ensure_user_in_tenant :: "db \<Rightarrow> int \<Rightarrow> int \<Rightarrow> error + unit" where
  "ensure_user_in_tenant d user_id tenant_id =
     (case find (\<lambda>l. ut_user_id l = user_id \<and> ut_tenant_id l = tenant_id) (user_tenants d) of
        None \<Rightarrow> Inl (HTTPException 403 ''User not linked to this tenant'')
      | Some link \<Rightarrow> Inr ())"

text \<open>The two lookups by primary key, \<open>filter(Asset.id == asset_id).first()\<close> and its like.\<close>

definition asset_by_id :: "db \<Rightarrow> int \<Rightarrow> asset option" where
  "asset_by_id d asset_id = find (\<lambda>a. a_id a = asset_id) (assets d)"

definition finding_by_id :: "db \<Rightarrow> int \<Rightarrow> finding option" where
  "finding_by_id d finding_id = find (\<lambda>f. f_id f = finding_id) (findings d)"

text \<open>Python's \<open>s.endswith(suffix)\<close>.\<close>

definition endswith :: "string \<Rightarrow> string \<Rightarrow> bool" where
  "endswith s suf = (length suf \<le> length s \<and> drop (length s - length suf) s = suf)"

text \<open>Truth value of an \<open>Optional[str]\<close>: \<open>None\<close> and the empty string are false.\<close>

definition truthy :: "string option \<Rightarrow> bool" where
  "truthy s = (case s of None \<Rightarrow> False | Some v \<Rightarrow> v \<noteq> [])"

text \<open>A name between apostrophes, as the f-strings of \<open>run_checks\<close> print it.\<close>

definition quoted :: "string \<Rightarrow> string" where
  "quoted s = CHR 0x27 # s @ [CHR 0x27]"

section \<open>Handlers (apps/api/main.py)\<close>

text \<open>
  A handler takes the committed database, the request and the e-mail address that
  \<open>get_current_user\<close> resolved from the bearer token; it returns the response (the
  raised error or the returned value) together with the database it leaves behind.
\<close>

definition user_not_found :: error where
  "user_not_found = HTTPException 404 ''User not found''"

definition register :: "db \<Rightarrow> string \<Rightarrow> string \<Rightarrow> (error + user) \<times> db" where
  \<comment> \<open>the second string is \<open>hash_password(payload.password)\<close>, an output of passlib\<close>
  "register d email pw_hash =
     (case find (\<lambda>u. u_email u = email) (users d) of
        Some existing \<Rightarrow> (Inl (HTTPException 400 ''Email already registered''), d)
      | None \<Rightarrow>
          let new_user = \<lparr>u_id = users_seq d, u_email = email, u_password_hash = pw_hash,
                           u_is_active = True, u_created_at = clock d\<rparr>
          in (Inr new_user,
              d\<lparr>users := users d @ [new_user], users_seq := users_seq d + 1,
                clock := clock d + 1\<rparr>))"

definition create_tenant :: "db \<Rightarrow> string \<Rightarrow> string \<Rightarrow> (error + tenant) \<times> db" where
  "create_tenant d name current_user =
     (case get_user_by_email d current_user of
        None \<Rightarrow> (Inl user_not_found, d)
      | Some user \<Rightarrow>
          (case find (\<lambda>t. t_name t = name) (tenants d) of
             Some existing \<Rightarrow> (Inl (HTTPException 400 ''Tenant name already exists''), d)
           | None \<Rightarrow>
               let t = \<lparr>t_id = tenants_seq d, t_name = name, t_created_at = clock d\<rparr>;
                   link = \<lparr>ut_id = user_tenants_seq d, ut_user_id = u_id user,
                           ut_tenant_id = t_id t, ut_role = ''owner''\<rparr>
               in (Inr t,
                   d\<lparr>tenants := tenants d @ [t], tenants_seq := tenants_seq d + 1,
                     user_tenants := user_tenants d @ [link],
                     user_tenants_seq := user_tenants_seq d + 1,
                     clock := clock d + 1\<rparr>)))"

definition list_my_tenants :: "db \<Rightarrow> string \<Rightarrow> (error + tenant list) \<times> db" where
  "list_my_tenants d current_user =
     (case get_user_by_email d current_user of
        None \<Rightarrow> (Inl user_not_found, d)
      | Some user \<Rightarrow>
          (Inr (concat (map (\<lambda>t. map (\<lambda>l. t)
                   (filter (\<lambda>l. ut_tenant_id l = t_id t \<and> ut_user_id l = u_id user)
                      (user_tenants d))) (tenants d))), d))"

definition create_asset :: "db \<Rightarrow> asset_create \<Rightarrow> string \<Rightarrow> (error + asset) \<times> db" where
  "create_asset d payload current_user =
     (case get_user_by_email d current_user of
        None \<Rightarrow> (Inl user_not_found, d)
      | Some user \<Rightarrow>
          (case ensure_user_in_tenant d (u_id user) (ac_tenant_id payload) of
             Inl e \<Rightarrow> (Inl e, d)
           | Inr ok \<Rightarrow>
               let a = \<lparr>a_id = assets_seq d, a_tenant_id = ac_tenant_id payload,
                        a_type = ac_type payload, a_name = ac_name payload,
                        a_region = ac_region payload, a_config_json = ac_config_json payload,
                        a_created_at = clock d\<rparr>
               in (Inr a,
                   d\<lparr>assets := assets d @ [a], assets_seq := assets_seq d + 1,
                     clock := clock d + 1\<rparr>)))"

definition list_assets :: "db \<Rightarrow> int \<Rightarrow> string \<Rightarrow> (error + asset list) \<times> db" where
  "list_assets d tenant_id current_user =
     (case get_user_by_email d current_user of
        None \<Rightarrow> (Inl user_not_found, d)
      | Some user \<Rightarrow>
          (case ensure_user_in_tenant d (u_id user) tenant_id of
             Inl e \<Rightarrow> (Inl e, d)
           | Inr ok \<Rightarrow> (Inr (filter (\<lambda>a. a_tenant_id a = tenant_id) (assets d)), d)))"

text \<open>
  \<open>db.delete(a)\<close> issues a DELETE by primary key; the findings that reference the asset
  go with it, as the \<open>ondelete="CASCADE"\<close> foreign key of \<open>Finding.asset_id\<close> declares.
  The parameter is declared \<open>Path(..., gt=0)\<close>.
\<close>

definition delete_asset :: "db \<Rightarrow> int \<Rightarrow> string \<Rightarrow> (error + unit) \<times> db" where
  "delete_asset d asset_id current_user =
     (if \<not> 0 < asset_id then (Inl RequestValidationError, d)
      else case get_user_by_email d current_user of
        None \<Rightarrow> (Inl user_not_found, d)
      | Some user \<Rightarrow>
          (case asset_by_id d asset_id of
             None \<Rightarrow> (Inl (HTTPException 404 ''Asset not found''), d)
           | Some a \<Rightarrow>
               (case ensure_user_in_tenant d (u_id user) (a_tenant_id a) of
                  Inl e \<Rightarrow> (Inl e, d)
                | Inr ok \<Rightarrow>
                    (Inr (),
                     d\<lparr>assets := filter (\<lambda>x. a_id x \<noteq> a_id a) (assets d),
                       findings := filter (\<lambda>f. f_asset_id f \<noteq> a_id a) (findings d)\<rparr>))))"

text \<open>
  \<open>order_by(Finding.created_at.desc())\<close>: newest first (rows of equal creation time in
  no order the query fixes; here the later row first).
\<close>

definition order_by_created_at_desc :: "finding list \<Rightarrow> finding list" where
  "order_by_created_at_desc rows = rev (sort_key f_created_at rows)"

definition list_findings ::
  "db \<Rightarrow> int \<Rightarrow> string option \<Rightarrow> string \<Rightarrow> (error + finding list) \<times> db" where
  "list_findings d tenant_id status_f current_user =
     (case get_user_by_email d current_user of
        None \<Rightarrow> (Inl user_not_found, d)
      | Some user \<Rightarrow>
          (case ensure_user_in_tenant d (u_id user) tenant_id of
             Inl e \<Rightarrow> (Inl e, d)
           | Inr ok \<Rightarrow>
               let q = filter (\<lambda>f. f_tenant_id f = tenant_id) (findings d);
                   q = (if truthy status_f then filter (\<lambda>f. Some (f_status f) = status_f) q
                        else q)
               in (Inr (order_by_created_at_desc q), d)))"

subsection \<open>run_checks\<close>

text \<open>
  The filter \<open>Finding.tenant_id == tenant_id, Finding.status == "open"\<close>, which both
  the bulk delete and the final query use.
\<close>

definition is_open_of :: "int \<Rightarrow> finding \<Rightarrow> bool" where
  "is_open_of tenant_id f = (f_tenant_id f = tenant_id \<and> f_status f = ''open'')"

text \<open>The bulk delete of line 200, committed at line 201.\<close>

definition clear_open_findings :: "int \<Rightarrow> db \<Rightarrow> db" where
  "clear_open_findings tenant_id d =
     d\<lparr>findings := filter (\<lambda>f. \<not> is_open_of tenant_id f) (findings d)\<rparr>"

text \<open>The body of the loop over the tenant's assets: the two rules, in their order.\<close>

definition check_asset :: "int \<Rightarrow> asset \<Rightarrow> finding_new list" where
  "check_asset tenant_id a =
     (if a_type a = ''aws_s3_bucket'' \<and> \<not> endswith (a_name a) ''-prod'' then
        [\<lparr>n_tenant_id = tenant_id, n_asset_id = a_id a, n_severity = ''low'',
          n_title = ''S3 bucket not tagged as production'',
          n_description = Some (''Bucket '' @ quoted (a_name a) @ '' does not end with ''
                                @ quoted ''-prod'' @ ''.''),
          n_status = ''open''\<rparr>]
      else [])
     @
     (if \<not> truthy (a_region a) then
        [\<lparr>n_tenant_id = tenant_id, n_asset_id = a_id a, n_severity = ''medium'',
          n_title = ''Asset has no region set'',
          n_description = Some (''Asset '' @ quoted (a_name a) @ '' has no region specified.''),
          n_status = ''open''\<rparr>]
      else [])"

fun evaluate :: "int \<Rightarrow> asset list \<Rightarrow> finding_new list" where
  "evaluate tenant_id [] = []"
| "evaluate tenant_id (a # as) = check_asset tenant_id a @ evaluate tenant_id as"

text \<open>
  The row that the flush of an added \<open>Finding\<close> inserts: the next primary key, the
  creation time read off the clock.
\<close>

definition inserted :: "int \<Rightarrow> datetime \<Rightarrow> finding_new \<Rightarrow> finding" where
  "inserted i t n =
     \<lparr>f_id = i, f_tenant_id = n_tenant_id n, f_asset_id = n_asset_id n,
      f_severity = n_severity n, f_title = n_title n, f_description = n_description n,
      f_status = n_status n, f_created_at = t\<rparr>"

definition add_finding :: "finding_new \<Rightarrow> db \<Rightarrow> db" where
  "add_finding n d =
     d\<lparr>findings := findings d @ [inserted (findings_seq d) (clock d) n],
       findings_seq := findings_seq d + 1,
       clock := clock d + 1\<rparr>"

fun add_all :: "finding_new list \<Rightarrow> db \<Rightarrow> db" where
  "add_all [] d = d"
| "add_all (n # ns) d = add_all ns (add_finding n d)"

text \<open>The query of line 228; it has no \<open>order_by\<close>, the rows come in table order.\<close>

definition open_findings :: "int \<Rightarrow> db \<Rightarrow> finding list" where
  "open_findings tenant_id d = filter (is_open_of tenant_id) (findings d)"

definition to_add :: "int \<Rightarrow> db \<Rightarrow> finding_new list" where
  "to_add tenant_id d = evaluate tenant_id (filter (\<lambda>a. a_tenant_id a = tenant_id) (assets d))"

definition run_checks :: "db \<Rightarrow> int \<Rightarrow> string \<Rightarrow> (error + finding list) \<times> db" where
  "run_checks d tenant_id current_user =
     (case get_user_by_email d current_user of
        None \<Rightarrow> (Inl user_not_found, d)
      | Some user \<Rightarrow>
          (case ensure_user_in_tenant d (u_id user) tenant_id of
             Inl e \<Rightarrow> (Inl e, d)
           | Inr ok \<Rightarrow>
               let d1 = clear_open_findings tenant_id d;
                   d2 = add_all (to_add tenant_id d1) d1
               in (Inr (open_findings tenant_id d2), d2)))"

text \<open>
  The states that \<open>run_checks\<close> commits, in order: one per \<open>db.commit()\<close> (lines 201
  and 226). A committed state is what another session can read.
\<close>

definition run_checks_commits :: "db \<Rightarrow> int \<Rightarrow> string \<Rightarrow> db list" where
  "run_checks_commits d tenant_id current_user =
     (case get_user_by_email d current_user of
        None \<Rightarrow> []
      | Some user \<Rightarrow>
          (case ensure_user_in_tenant d (u_id user) tenant_id of
             Inl e \<Rightarrow> []
           | Inr ok \<Rightarrow>
               let d1 = clear_open_findings tenant_id d;
                   d2 = add_all (to_add tenant_id d1) d1
               in [d1, d2]))"

subsection \<open>update_finding\<close>

text \<open>
  \<open>FindingUpdate.status\<close> is declared \<open>str\<close>: any string passes. The assignment is
  flushed as an UPDATE by primary key.
\<close>

definition update_finding :: "db \<Rightarrow> int \<Rightarrow> string \<Rightarrow> string \<Rightarrow> (error + finding) \<times> db" where
  "update_finding d finding_id status current_user =
     (case get_user_by_email d current_user of
        None \<Rightarrow> (Inl user_not_found, d)
      | Some user \<Rightarrow>
          (case finding_by_id d finding_id of
             None \<Rightarrow> (Inl (HTTPException 404 ''Finding not found''), d)
           | Some f \<Rightarrow>
               (case ensure_user_in_tenant d (u_id user) (f_tenant_id f) of
                  Inl e \<Rightarrow> (Inl e, d)
                | Inr ok \<Rightarrow>
                    (Inr (f\<lparr>f_status := status\<rparr>),
                     d\<lparr>findings := map (\<lambda>x. if f_id x = f_id f then x\<lparr>f_status := status\<rparr>
                                            else x) (findings d)\<rparr>))))"

section \<open>The service as a state machine\<close>

text \<open>
  One constructor per endpoint that takes a database session, but for \<open>login\<close>,
  which only reads the users table and issues a token; each with the request's
  parameters and the caller's resolved e-mail address. \<open>handle\<close> is the database a
  request leaves behind, \<open>serve\<close> runs requests one after the other.
\<close>

datatype request =
    Register string string
  | CreateTenant string string
  | ListMyTenants string
  | CreateAsset asset_create string
  | ListAssets int string
  | DeleteAsset int string
  | ListFindings int "string option" string
  | RunChecks int string
  | UpdateFinding int string string

fun handle :: "db \<Rightarrow> request \<Rightarrow> db" where
  "handle d (Register email pw_hash) = snd (register d email pw_hash)"
| "handle d (CreateTenant name cu) = snd (create_tenant d name cu)"
| "handle d (ListMyTenants cu) = snd (list_my_tenants d cu)"
| "handle d (CreateAsset payload cu) = snd (create_asset d payload cu)"
| "handle d (ListAssets tenant_id cu) = snd (list_assets d tenant_id cu)"
| "handle d (DeleteAsset asset_id cu) = snd (delete_asset d asset_id cu)"
| "handle d (ListFindings tenant_id status_f cu) = snd (list_findings d tenant_id status_f cu)"
| "handle d (RunChecks tenant_id cu) = snd (run_checks d tenant_id cu)"
| "handle d (UpdateFinding finding_id status cu) = snd (update_finding d finding_id status cu)"

fun serve :: "request list \<Rightarrow> db \<Rightarrow> db" where
  "serve [] d = d"
| "serve (r # rs) d = serve rs (handle d r)"

section \<open>Notions used by the properties\<close>

text \<open>
  The rows that a batch of added findings becomes: consecutive primary keys from \<open>i\<close>,
  consecutive clock readings from \<open>t\<close>.
\<close>

fun stamp :: "int \<Rightarrow> datetime \<Rightarrow> finding_new list \<Rightarrow> finding list" where
  "stamp i t [] = []"
| "stamp i t (n # ns) = inserted i t n # stamp (i + 1) (t + 1) ns"

definition fresh_rows :: "int \<Rightarrow> db \<Rightarrow> finding list" where
  "fresh_rows tenant_id d = stamp (findings_seq d) (clock d) (to_add tenant_id d)"

text \<open>What identifies a rule match: the asset, the severity and the title.\<close>

definition finding_key :: "finding \<Rightarrow> int \<times> string \<times> string" where
  "finding_key f = (f_asset_id f, f_severity f, f_title f)"

definition new_key :: "finding_new \<Rightarrow> int \<times> string \<times> string" where
  "new_key n = (n_asset_id n, n_severity n, n_title n)"

text \<open>The error with which \<open>ensure_user_in_tenant\<close> refuses a caller.\<close>

definition forbidden :: error where
  "forbidden = HTTPException 403 ''User not linked to this tenant''"

text \<open>
  The primary key of the assets table: the keys are positive, pairwise different and
  below the next value of the sequence.
\<close>

definition assets_pk :: "db \<Rightarrow> bool" where
  "assets_pk d = (0 < assets_seq d \<and> distinct (map a_id (assets d)) \<and>
                  (\<forall>a\<in>set (assets d). 0 < a_id a \<and> a_id a < assets_seq d))"

text \<open>Every finding references an asset of the table, and that asset is of the finding's tenant.\<close>

definition refs_ok :: "db \<Rightarrow> bool" where
  "refs_ok d = (\<forall>f\<in>set (findings d). \<exists>a\<in>set (assets d).
                  a_id a = f_asset_id f \<and> a_tenant_id a = f_tenant_id f)"

text \<open>What a finding says: severity, title and status.\<close>

definition finding_view :: "finding \<Rightarrow> string \<times> string \<times> string" where
  "finding_view f = (f_severity f, f_title f, f_status f)"

definition new_view :: "finding_new \<Rightarrow> string \<times> string \<times> string" where
  "new_view n = (n_severity n, n_title n, n_status n)"

subsection \<open>Example runs\<close>

text \<open>
  Two users; the first creates the tenant \<open>acme\<close> (id 1) and the two buckets of the
  specification's scenario (ids 1 and 2).
\<close>

definition ex_setup :: "request list" where
  "ex_setup =
     [Register ''a@x.com'' ''h1'', Register ''b@x.com'' ''h2'',
      CreateTenant ''acme'' ''a@x.com'',
      CreateAsset \<lparr>ac_tenant_id = 1, ac_type = ''aws_s3_bucket'', ac_name = ''app-data'',
                   ac_region = None, ac_config_json = None\<rparr> ''a@x.com'',
      CreateAsset \<lparr>ac_tenant_id = 1, ac_type = ''aws_s3_bucket'', ac_name = ''app-data-prod'',
                   ac_region = Some ''us-east-1'', ac_config_json = None\<rparr> ''a@x.com'']"

definition ex_db :: db where
  "ex_db = serve ex_setup empty_db"

text \<open>Then a run of the checks, and the first finding set to resolved.\<close>

definition ex_checked :: db where
  "ex_checked = serve [RunChecks 1 ''a@x.com''] ex_db"

definition ex_triaged :: db where
  "ex_triaged = serve [UpdateFinding 1 ''resolved'' ''a@x.com''] ex_checked"

definition low_desc :: string where
  "low_desc = ''Bucket '' @ quoted ''app-data'' @ '' does not end with '' @ quoted ''-prod'' @ ''.''"

definition medium_desc :: string where
  "medium_desc = ''Asset '' @ quoted ''app-data'' @ '' has no region specified.''"

text \<open>
  The two findings of the first bucket, with the primary key, status and creation time
  they have at different moments of the example.
\<close>

definition ex_low :: "int \<Rightarrow> string \<Rightarrow> datetime \<Rightarrow> finding" where
  "ex_low i st t =
     \<lparr>f_id = i, f_tenant_id = 1, f_asset_id = 1, f_severity = ''low'',
      f_title = ''S3 bucket not tagged as production'', f_description = Some low_desc,
      f_status = st, f_created_at = t\<rparr>"

definition ex_medium :: "int \<Rightarrow> string \<Rightarrow> datetime \<Rightarrow> finding" where
  "ex_medium i st t =
     \<lparr>f_id = i, f_tenant_id = 1, f_asset_id = 1, f_severity = ''medium'',
      f_title = ''Asset has no region set'', f_description = Some medium_desc,
      f_status = st, f_created_at = t\<rparr>"

definition ex_bucket :: asset where
  "ex_bucket =
     \<lparr>a_id = 1, a_tenant_id = 1, a_type = ''aws_s3_bucket'', a_name = ''app-data'',
      a_region = None, a_config_json = None, a_created_at = 3\<rparr>"

definition ex_bucket_prod :: asset where
  "ex_bucket_prod =
     \<lparr>a_id = 2, a_tenant_id = 1, a_type = ''aws_s3_bucket'', a_name = ''app-data-prod'',
      a_region = Some ''us-east-1'', a_config_json = None, a_created_at = 4\<rparr>"

section \<open>Basic facts\<close>

lemmas handler_defs =
  register_def create_tenant_def list_my_tenants_def create_asset_def list_assets_def
  delete_asset_def list_findings_def run_checks_def update_finding_def
  get_user_by_email_def ensure_user_in_tenant_def asset_by_id_def finding_by_id_def
  user_not_found_def clear_open_findings_def to_add_def check_asset_def add_finding_def
  open_findings_def is_open_of_def inserted_def endswith_def truthy_def quoted_def Let_def

lemmas ex_row_defs = ex_low_def ex_medium_def ex_bucket_def ex_bucket_prod_def
  low_desc_def medium_desc_def

subsection \<open>The example, evaluated\<close>

lemma ex_db_eq:
  "ex_db =
     \<lparr>users = [\<lparr>u_id = 1, u_email = ''a@x.com'', u_password_hash = ''h1'',
                 u_is_active = True, u_created_at = 0\<rparr>,
               \<lparr>u_id = 2, u_email = ''b@x.com'', u_password_hash = ''h2'',
                 u_is_active = True, u_created_at = 1\<rparr>],
      tenants = [\<lparr>t_id = 1, t_name = ''acme'', t_created_at = 2\<rparr>],
      user_tenants = [\<lparr>ut_id = 1, ut_user_id = 1, ut_tenant_id = 1, ut_role = ''owner''\<rparr>],
      assets = [ex_bucket, ex_bucket_prod],
      findings = [],
      users_seq = 3, tenants_seq = 2, user_tenants_seq = 2, assets_seq = 3, findings_seq = 1,
      clock = 5\<rparr>"
  by (simp add: ex_db_def ex_setup_def empty_db_def handler_defs ex_row_defs)

lemma ex_run:
  "run_checks ex_db 1 ''a@x.com'' =
     (Inr [ex_low 1 ''open'' 5, ex_medium 2 ''open'' 6],
      ex_db\<lparr>findings := [ex_low 1 ''open'' 5, ex_medium 2 ''open'' 6],
        findings_seq := 3, clock := 7\<rparr>)"
  by (simp add: ex_db_eq handler_defs ex_row_defs)

lemma ex_checked_eq:
  "ex_checked =
     ex_db\<lparr>findings := [ex_low 1 ''open'' 5, ex_medium 2 ''open'' 6],
       findings_seq := 3, clock := 7\<rparr>"
  by (simp add: ex_checked_def ex_run)

lemma ex_triaged_eq:
  "ex_triaged =
     ex_db\<lparr>findings := [ex_low 1 ''resolved'' 5, ex_medium 2 ''open'' 6],
       findings_seq := 3, clock := 7\<rparr>"
  by (simp add: ex_triaged_def ex_checked_eq ex_db_eq handler_defs ex_row_defs)

lemma ex_rerun:
  "run_checks ex_triaged 1 ''a@x.com'' =
     (Inr [ex_low 3 ''open'' 7, ex_medium 4 ''open'' 8],
      ex_db\<lparr>findings := [ex_low 1 ''resolved'' 5, ex_low 3 ''open'' 7, ex_medium 4 ''open'' 8],
        findings_seq := 5, clock := 9\<rparr>)"
  by (simp add: ex_triaged_eq ex_db_eq handler_defs ex_row_defs)

lemma ex_db_pk: "assets_pk ex_db"
  by (simp add: assets_pk_def ex_db_eq ex_bucket_def ex_bucket_prod_def)

lemma ex_checked_pk: "assets_pk ex_checked"
  by (simp add: assets_pk_def ex_checked_eq ex_db_eq ex_bucket_def ex_bucket_prod_def)

lemma ex_users:
  "get_user_by_email ex_db ''a@x.com'' =
     Some \<lparr>u_id = 1, u_email = ''a@x.com'', u_password_hash = ''h1'',
           u_is_active = True, u_created_at = 0\<rparr>"
  "get_user_by_email ex_db ''b@x.com'' =
     Some \<lparr>u_id = 2, u_email = ''b@x.com'', u_password_hash = ''h2'',
           u_is_active = True, u_created_at = 1\<rparr>"
  by (simp_all add: ex_db_eq get_user_by_email_def)

lemma ex_checked_users: "get_user_by_email ex_checked cu = get_user_by_email ex_db cu"
  by (simp add: ex_checked_eq get_user_by_email_def)

lemma ex_list_findings:
  "fst (list_findings ex_checked 1 None ''a@x.com'')
     = Inr [ex_medium 2 ''open'' 6, ex_low 1 ''open'' 5]"
  by (simp add: ex_checked_eq ex_db_eq list_findings_def get_user_by_email_def
      ensure_user_in_tenant_def truthy_def order_by_created_at_desc_def ex_low_def ex_medium_def)

subsection \<open>Inserting a batch of findings\<close>

lemma add_all_findings:
  "findings (add_all ns d) = findings d @ stamp (findings_seq d) (clock d) ns"
  by (induction ns arbitrary: d) (simp_all add: add_finding_def)

lemma add_all_frame:
  "users (add_all ns d) = users d" "tenants (add_all ns d) = tenants d"
  "user_tenants (add_all ns d) = user_tenants d" "assets (add_all ns d) = assets d"
  "users_seq (add_all ns d) = users_seq d" "tenants_seq (add_all ns d) = tenants_seq d"
  "user_tenants_seq (add_all ns d) = user_tenants_seq d"
  "assets_seq (add_all ns d) = assets_seq d"
  by (induction ns arbitrary: d) (simp_all add: add_finding_def)

lemma stamp_fresh:
  "f \<in> set (stamp i t ns) \<Longrightarrow>
     i \<le> f_id f \<and> f_id f < i + int (length ns) \<and> t \<le> f_created_at f"
  by (induction ns arbitrary: i t) (fastforce simp: inserted_def)+

lemma stamp_mem:
  "f \<in> set (stamp i t ns) \<Longrightarrow>
     \<exists>n\<in>set ns. f_tenant_id f = n_tenant_id n \<and> f_asset_id f = n_asset_id n \<and>
       f_severity f = n_severity n \<and> f_title f = n_title n \<and> f_status f = n_status n"
  by (induction ns arbitrary: i t) (auto simp: inserted_def)

lemma mem_stamp:
  "n \<in> set ns \<Longrightarrow>
     \<exists>f\<in>set (stamp i t ns). f_tenant_id f = n_tenant_id n \<and> f_asset_id f = n_asset_id n \<and>
       f_severity f = n_severity n \<and> f_title f = n_title n \<and> f_status f = n_status n"
  by (induction ns arbitrary: i t) (auto simp: inserted_def)

lemma stamp_keys: "map finding_key (stamp i t ns) = map new_key ns"
  by (induction ns arbitrary: i t) (simp_all add: inserted_def finding_key_def new_key_def)

lemma stamp_ascending: "sorted_wrt (<) (map f_created_at (stamp i t ns))"
proof (induction ns arbitrary: i t)
  case Nil
  then show ?case by simp
next
  case (Cons n ns)
  have "t < f_created_at f" if "f \<in> set (stamp (i + 1) (t + 1) ns)" for f
    using stamp_fresh [OF that] by simp
  with Cons show ?case by (auto simp: inserted_def)
qed

subsection \<open>The rules\<close>

lemma check_asset_fields:
  "n \<in> set (check_asset tenant_id a) \<Longrightarrow>
     n_tenant_id n = tenant_id \<and> n_asset_id n = a_id a \<and> n_status n = ''open''"
  by (auto simp: check_asset_def split: if_splits)

lemma evaluate_concat: "evaluate tenant_id as = concat (map (check_asset tenant_id) as)"
  by (induction as) simp_all

lemma evaluate_fields:
  "n \<in> set (evaluate tenant_id as) \<Longrightarrow> n_tenant_id n = tenant_id \<and> n_status n = ''open''"
  by (auto simp: evaluate_concat dest: check_asset_fields)

lemma stamp_evaluate_open:
  "f \<in> set (stamp i t (evaluate tenant_id as)) \<Longrightarrow> is_open_of tenant_id f"
  unfolding is_open_of_def using stamp_mem evaluate_fields by metis

lemma filter_open_stamp:
  "filter (is_open_of tenant_id) (stamp i t (evaluate tenant_id as))
     = stamp i t (evaluate tenant_id as)"
  by (rule filter_True) (auto dest: stamp_evaluate_open)

lemma filter_not_open_stamp:
  "filter (\<lambda>f. \<not> is_open_of tenant_id f) (stamp i t (evaluate tenant_id as)) = []"
  by (auto simp: filter_empty_conv dest: stamp_evaluate_open)

lemma triaged_not_open:
  "f_status f = ''resolved'' \<or> f_status f = ''ignored'' \<Longrightarrow> \<not> is_open_of tenant_id f"
  by (auto simp: is_open_of_def)

lemma stamp_of_asset:
  "map finding_view (filter (\<lambda>f. f_asset_id f = k) (stamp i t ns))
     = map new_view (filter (\<lambda>n. n_asset_id n = k) ns)"
  by (induction ns arbitrary: i t) (simp_all add: inserted_def finding_view_def new_view_def)

lemma check_asset_other:
  "a_id a \<noteq> k \<Longrightarrow> filter (\<lambda>n. n_asset_id n = k) (check_asset tenant_id a) = []"
  by (auto simp: filter_empty_conv dest: check_asset_fields)

lemma check_asset_same:
  "filter (\<lambda>n. n_asset_id n = a_id a) (check_asset tenant_id a) = check_asset tenant_id a"
  by (rule filter_True) (auto dest: check_asset_fields)

lemma evaluate_other:
  "\<forall>y\<in>set as. a_id y \<noteq> k \<Longrightarrow> filter (\<lambda>n. n_asset_id n = k) (evaluate tenant_id as) = []"
  by (induction as) (simp_all add: check_asset_other)

lemma evaluate_of_asset:
  "a \<in> set as \<Longrightarrow> distinct (map a_id as) \<Longrightarrow>
     filter (\<lambda>n. n_asset_id n = a_id a) (evaluate tenant_id as) = check_asset tenant_id a"
proof (induction as)
  case Nil
  then show ?case by simp
next
  case (Cons x as)
  show ?case
  proof (cases "x = a")
    case True
    with Cons.prems have "a_id a \<notin> a_id ` set as" by simp
    then have "\<forall>y\<in>set as. a_id y \<noteq> a_id a" by (auto simp: image_iff)
    then have "filter (\<lambda>n. n_asset_id n = a_id a) (evaluate tenant_id as) = []"
      by (rule evaluate_other)
    with True show ?thesis by (simp add: check_asset_same)
  next
    case False
    with Cons.prems have "a \<in> set as" "distinct (map a_id as)" "a_id x \<noteq> a_id a"
      by auto
    with Cons.IH show ?thesis by (simp add: check_asset_other)
  qed
qed

lemma check_asset_app_data:
  assumes "a_type a = ''aws_s3_bucket''" "a_name a = ''app-data''" "a_region a = None"
  shows "map new_view (check_asset tenant_id a) =
           [(''low'', ''S3 bucket not tagged as production'', ''open''),
            (''medium'', ''Asset has no region set'', ''open'')]"
  using assms by (simp add: check_asset_def endswith_def truthy_def new_view_def)

lemma check_asset_app_data_prod:
  assumes "a_type a = ''aws_s3_bucket''" "a_name a = ''app-data-prod''"
    "a_region a = Some ''us-east-1''"
  shows "check_asset tenant_id a = []"
  using assms by (simp add: check_asset_def endswith_def truthy_def)

subsection \<open>What a run of the checks does\<close>

lemma run_checks_authorised:
  assumes "get_user_by_email d cu = Some user"
    and "ensure_user_in_tenant d (u_id user) tenant_id = Inr ()"
  shows "fst (run_checks d tenant_id cu) = Inr (fresh_rows tenant_id d)"
    and "findings (snd (run_checks d tenant_id cu)) =
           filter (\<lambda>f. \<not> is_open_of tenant_id f) (findings d) @ fresh_rows tenant_id d"
    and "assets (snd (run_checks d tenant_id cu)) = assets d"
    and "users (snd (run_checks d tenant_id cu)) = users d"
    and "user_tenants (snd (run_checks d tenant_id cu)) = user_tenants d"
  using assms
  by (simp_all add: run_checks_def Let_def open_findings_def add_all_findings add_all_frame
      clear_open_findings_def to_add_def fresh_rows_def filter_open_stamp)

lemma run_checks_cases:
  obtains (refused) e where "run_checks d tenant_id cu = (Inl e, d)"
  | (authorised) user where "get_user_by_email d cu = Some user"
      "ensure_user_in_tenant d (u_id user) tenant_id = Inr ()"
  by (cases "get_user_by_email d cu";
      cases "ensure_user_in_tenant d (u_id (the (get_user_by_email d cu))) tenant_id")
     (auto simp: run_checks_def)

lemma run_checks_Inr:
  assumes "fst (run_checks d tenant_id cu) = Inr fs"
  obtains user where "get_user_by_email d cu = Some user"
    and "ensure_user_in_tenant d (u_id user) tenant_id = Inr ()"
  using assms by (cases rule: run_checks_cases [of d tenant_id cu]) auto

lemma run_checks_open_findings:
  assumes "fst (run_checks d tenant_id cu) = Inr fs"
  shows "open_findings tenant_id (snd (run_checks d tenant_id cu)) = fs"
  using assms by (auto simp: run_checks_def Let_def split: option.splits sum.splits)

lemma run_checks_commits_refused:
  "fst (run_checks d tenant_id cu) = Inl e \<Longrightarrow> run_checks_commits d tenant_id cu = []"
  by (auto simp: run_checks_def run_checks_commits_def Let_def split: option.splits sum.splits)

subsection \<open>Invariants of the state machine\<close>

lemma assets_pk_empty: "assets_pk empty_db"
  by (simp add: assets_pk_def empty_db_def)

lemma assets_pk_create_asset: "assets_pk d \<Longrightarrow> assets_pk (snd (create_asset d payload cu))"
  by (fastforce simp: create_asset_def assets_pk_def Let_def split: option.splits sum.splits)

lemma assets_pk_delete_asset: "assets_pk d \<Longrightarrow> assets_pk (snd (delete_asset d asset_id cu))"
  by (auto simp: delete_asset_def assets_pk_def distinct_map_filter split: option.splits sum.splits)

lemma run_checks_assets:
  "assets (snd (run_checks d tenant_id cu)) = assets d"
  "assets_seq (snd (run_checks d tenant_id cu)) = assets_seq d"
  by (auto simp: run_checks_def Let_def add_all_frame clear_open_findings_def
      split: option.splits sum.splits)

lemma assets_pk_handle: "assets_pk d \<Longrightarrow> assets_pk (handle d r)"
proof (cases r)
  case (CreateAsset payload cu)
  then show "assets_pk d \<Longrightarrow> ?thesis" by (simp add: assets_pk_create_asset)
next
  case (DeleteAsset asset_id cu)
  then show "assets_pk d \<Longrightarrow> ?thesis" by (simp add: assets_pk_delete_asset)
next
  case (RunChecks tenant_id cu)
  then show "assets_pk d \<Longrightarrow> ?thesis" by (simp add: assets_pk_def run_checks_assets)
qed (auto simp: assets_pk_def register_def create_tenant_def list_my_tenants_def list_assets_def
      list_findings_def update_finding_def Let_def split: option.splits sum.splits)

lemma assets_pk_serve: "assets_pk d \<Longrightarrow> assets_pk (serve rs d)"
  by (induction rs arbitrary: d) (simp_all add: assets_pk_handle)

text \<open>Every database that the service can reach from the empty one has the primary key.\<close>

lemma assets_pk_reachable: "assets_pk (serve rs empty_db)"
  by (simp add: assets_pk_serve assets_pk_empty)

lemma evaluate_asset:
  "n \<in> set (evaluate tenant_id as) \<Longrightarrow>
     \<exists>a\<in>set as. n_asset_id n = a_id a \<and> n_tenant_id n = tenant_id"
  by (auto simp: evaluate_concat dest: check_asset_fields)

lemma fresh_rows_refs:
  assumes "f \<in> set (fresh_rows tenant_id d)"
  shows "f_tenant_id f = tenant_id \<and>
         (\<exists>a\<in>set (assets d). a_id a = f_asset_id f \<and> a_tenant_id a = tenant_id)"
proof -
  from assms obtain n where n: "n \<in> set (to_add tenant_id d)"
    "f_tenant_id f = n_tenant_id n" "f_asset_id f = n_asset_id n"
    unfolding fresh_rows_def using stamp_mem by blast
  from n(1) obtain a where "a \<in> set (filter (\<lambda>a. a_tenant_id a = tenant_id) (assets d))"
    "n_asset_id n = a_id a" "n_tenant_id n = tenant_id"
    unfolding to_add_def using evaluate_asset by blast
  with n show ?thesis by auto
qed

lemma refs_ok_run_checks: "refs_ok d \<Longrightarrow> refs_ok (snd (run_checks d tenant_id cu))"
proof (cases rule: run_checks_cases [of d tenant_id cu])
  case (refused e)
  then show "refs_ok d \<Longrightarrow> ?thesis" by simp
next
  case (authorised user)
  assume ok: "refs_ok d"
  show ?thesis
    unfolding refs_ok_def
  proof
    fix f assume "f \<in> set (findings (snd (run_checks d tenant_id cu)))"
    then consider "f \<in> set (findings d)" | "f \<in> set (fresh_rows tenant_id d)"
      using authorised by (auto simp: run_checks_authorised)
    then show "\<exists>a\<in>set (assets (snd (run_checks d tenant_id cu))).
                 a_id a = f_asset_id f \<and> a_tenant_id a = f_tenant_id f"
    proof cases
      case 1
      with ok show ?thesis by (simp add: refs_ok_def run_checks_assets)
    next
      case 2
      then show ?thesis
        using fresh_rows_refs [OF 2] by (auto simp: run_checks_assets)
    qed
  qed
qed

lemma refs_ok_delete_asset: "refs_ok d \<Longrightarrow> refs_ok (snd (delete_asset d asset_id cu))"
  by (auto simp: delete_asset_def refs_ok_def split: option.splits sum.splits) metis+

lemma refs_ok_update_finding: "refs_ok d \<Longrightarrow> refs_ok (snd (update_finding d finding_id s cu))"
  by (auto simp: update_finding_def refs_ok_def split: option.splits sum.splits if_splits)

lemma refs_ok_create_asset: "refs_ok d \<Longrightarrow> refs_ok (snd (create_asset d payload cu))"
  by (auto simp: create_asset_def refs_ok_def Let_def split: option.splits sum.splits)

lemma refs_ok_handle: "refs_ok d \<Longrightarrow> refs_ok (handle d r)"
proof (cases r)
  case (CreateAsset payload cu)
  then show "refs_ok d \<Longrightarrow> ?thesis" by (simp add: refs_ok_create_asset)
next
  case (DeleteAsset asset_id cu)
  then show "refs_ok d \<Longrightarrow> ?thesis" by (simp add: refs_ok_delete_asset)
next
  case (RunChecks tenant_id cu)
  then show "refs_ok d \<Longrightarrow> ?thesis" by (simp add: refs_ok_run_checks)
next
  case (UpdateFinding finding_id s cu)
  then show "refs_ok d \<Longrightarrow> ?thesis" by (simp add: refs_ok_update_finding)
qed (auto simp: refs_ok_def register_def create_tenant_def list_my_tenants_def list_assets_def
      list_findings_def Let_def split: option.splits sum.splits)

lemma refs_ok_serve: "refs_ok d \<Longrightarrow> refs_ok (serve rs d)"
  by (induction rs arbitrary: d) (simp_all add: refs_ok_handle)

subsection \<open>Lookups and the membership guard\<close>

lemma find_update:
  "find (\<lambda>x. f_id x = k) xs = Some f \<Longrightarrow>
     find (\<lambda>x. f_id x = k) (map (\<lambda>x. if f_id x = f_id f then x\<lparr>f_status := s\<rparr> else x) xs)
       = Some (f\<lparr>f_status := s\<rparr>)"
  by (induction xs) (auto split: if_splits)

lemma not_linked:
  assumes "\<forall>l\<in>set (user_tenants d). \<not> (ut_user_id l = uid \<and> ut_tenant_id l = tenant_id)"
  shows "ensure_user_in_tenant d uid tenant_id = Inl forbidden"
proof -
  from assms have "find (\<lambda>l. ut_user_id l = uid \<and> ut_tenant_id l = tenant_id) (user_tenants d) = None"
    by (simp add: find_None_iff)
  then show ?thesis by (simp add: ensure_user_in_tenant_def forbidden_def)
qed

lemma asset_by_id_Some:
  "asset_by_id d k = Some a \<Longrightarrow> a \<in> set (assets d) \<and> a_id a = k"
  by (auto simp: asset_by_id_def find_Some_iff in_set_conv_nth)

lemma finding_by_id_Some:
  "finding_by_id d k = Some f \<Longrightarrow> f \<in> set (findings d) \<and> f_id f = k"
  by (auto simp: finding_by_id_def find_Some_iff in_set_conv_nth)

section \<open>Properties\<close>

text \<open>
  C1. Let the caller be a registered user with no membership row for the tenant, in a
  database whose asset keys are as the primary key makes them (every database that the
  service reaches is, by \<open>assets_pk_reachable\<close>). Then \<open>create_asset\<close>
  with that tenant in the payload, \<open>list_assets\<close>, \<open>run_checks\<close> and
  \<open>list_findings\<close> (with any status filter) for that tenant, \<open>delete_asset\<close> with
  any id that finds an asset of the tenant and \<open>update_finding\<close> with any id that
  finds a finding of the tenant (and any new status) all answer 403 and leave the
  database as it was.
\<close>

theorem tenant_isolation:
  assumes u: "get_user_by_email d cu = Some user"
    and no: "\<forall>l\<in>set (user_tenants d). \<not> (ut_user_id l = u_id user \<and> ut_tenant_id l = tenant_id)"
    and pk: "assets_pk d"
  shows "(\<forall>payload. ac_tenant_id payload = tenant_id \<longrightarrow>
            create_asset d payload cu = (Inl forbidden, d)) \<and>
         list_assets d tenant_id cu = (Inl forbidden, d) \<and>
         run_checks d tenant_id cu = (Inl forbidden, d) \<and>
         (\<forall>status_f. list_findings d tenant_id status_f cu = (Inl forbidden, d)) \<and>
         (\<forall>asset_id a. asset_by_id d asset_id = Some a \<and> a_tenant_id a = tenant_id \<longrightarrow>
            delete_asset d asset_id cu = (Inl forbidden, d)) \<and>
         (\<forall>finding_id f s. finding_by_id d finding_id = Some f \<and> f_tenant_id f = tenant_id \<longrightarrow>
            update_finding d finding_id s cu = (Inl forbidden, d))"
proof -
  have guard: "ensure_user_in_tenant d (u_id user) tenant_id = Inl forbidden"
    using no by (rule not_linked)
  have create: "create_asset d payload cu = (Inl forbidden, d)"
    if "ac_tenant_id payload = tenant_id" for payload
    using u guard that by (simp add: create_asset_def)
  have list_a: "list_assets d tenant_id cu = (Inl forbidden, d)"
    using u guard by (simp add: list_assets_def)
  have run: "run_checks d tenant_id cu = (Inl forbidden, d)"
    using u guard by (simp add: run_checks_def)
  have list_f: "list_findings d tenant_id status_f cu = (Inl forbidden, d)" for status_f
    using u guard by (simp add: list_findings_def)
  have delete: "delete_asset d asset_id cu = (Inl forbidden, d)"
    if "asset_by_id d asset_id = Some a" "a_tenant_id a = tenant_id" for asset_id a
  proof -
    from that(1) have "a \<in> set (assets d)" "a_id a = asset_id"
      by (simp_all add: asset_by_id_Some)
    with pk have "0 < asset_id" by (auto simp: assets_pk_def)
    with u guard that show ?thesis by (simp add: delete_asset_def)
  qed
  have update: "update_finding d finding_id s cu = (Inl forbidden, d)"
    if "finding_by_id d finding_id = Some f" "f_tenant_id f = tenant_id" for finding_id f s
    using u guard that by (simp add: update_finding_def)
  from create list_a run list_f delete update show ?thesis by blast
qed

theorem tenant_isolation_witness:
  "get_user_by_email ex_checked ''b@x.com'' \<noteq> None \<and>
   asset_by_id ex_checked 1 = Some ex_bucket \<and>
   finding_by_id ex_checked 2 = Some (ex_medium 2 ''open'' 6) \<and>
   create_asset ex_checked
     \<lparr>ac_tenant_id = 1, ac_type = ''aws_s3_bucket'', ac_name = ''mine'', ac_region = None,
      ac_config_json = None\<rparr> ''b@x.com'' = (Inl forbidden, ex_checked) \<and>
   list_assets ex_checked 1 ''b@x.com'' = (Inl forbidden, ex_checked) \<and>
   run_checks ex_checked 1 ''b@x.com'' = (Inl forbidden, ex_checked) \<and>
   list_findings ex_checked 1 None ''b@x.com'' = (Inl forbidden, ex_checked) \<and>
   delete_asset ex_checked 1 ''b@x.com'' = (Inl forbidden, ex_checked) \<and>
   update_finding ex_checked 2 ''resolved'' ''b@x.com'' = (Inl forbidden, ex_checked)"
proof -
  let ?bob = "\<lparr>u_id = 2, u_email = ''b@x.com'', u_password_hash = ''h2'',
               u_is_active = True, u_created_at = 1\<rparr>"
  have u: "get_user_by_email ex_checked ''b@x.com'' = Some ?bob"
    by (simp add: ex_checked_users ex_users)
  have no: "\<forall>l\<in>set (user_tenants ex_checked). \<not> (ut_user_id l = u_id ?bob \<and> ut_tenant_id l = 1)"
    by (simp add: ex_checked_eq ex_db_eq)
  have a: "asset_by_id ex_checked 1 = Some ex_bucket" "a_tenant_id ex_bucket = 1"
    by (simp_all add: ex_checked_eq ex_db_eq asset_by_id_def ex_bucket_def)
  have f: "finding_by_id ex_checked 2 = Some (ex_medium 2 ''open'' 6)"
    "f_tenant_id (ex_medium 2 ''open'' 6) = 1"
    by (simp_all add: ex_checked_eq finding_by_id_def ex_low_def ex_medium_def)
  have p: "ac_tenant_id \<lparr>ac_tenant_id = 1, ac_type = ''aws_s3_bucket'', ac_name = ''mine'',
             ac_region = None, ac_config_json = None\<rparr> = 1"
    by simp
  from tenant_isolation [OF u no ex_checked_pk] u a f p show ?thesis
    by blast
qed

text \<open>
  C2. Let a run of the checks succeed on a database whose asset keys are as the primary
  key makes them (every database that the service reaches is, by
  \<open>assets_pk_reachable\<close>). What it returns is the query for the tenant's open findings on the
  database it leaves. For every asset of the tenant with type \<open>aws_s3_bucket\<close>, name
  \<open>app-data\<close> and no region, the returned findings of that asset are exactly two, both
  open: one of severity low titled "S3 bucket not tagged as production", one of severity
  medium titled "Asset has no region set". For every asset of the tenant with type
  \<open>aws_s3_bucket\<close>, name \<open>app-data-prod\<close> and region \<open>us-east-1\<close>, there is none.
\<close>

theorem run_checks_scenario:
  assumes run: "run_checks d tenant_id cu = (Inr fs, d')"
    and pk: "assets_pk d"
  shows "fs = open_findings tenant_id d' \<and>
    (\<forall>a\<in>set (assets d). a_tenant_id a = tenant_id \<and> a_type a = ''aws_s3_bucket'' \<and>
        a_name a = ''app-data'' \<and> a_region a = None \<longrightarrow>
        map finding_view (filter (\<lambda>f. f_asset_id f = a_id a) fs) =
          [(''low'', ''S3 bucket not tagged as production'', ''open''),
           (''medium'', ''Asset has no region set'', ''open'')]) \<and>
    (\<forall>a\<in>set (assets d). a_tenant_id a = tenant_id \<and> a_type a = ''aws_s3_bucket'' \<and>
        a_name a = ''app-data-prod'' \<and> a_region a = Some ''us-east-1'' \<longrightarrow>
        filter (\<lambda>f. f_asset_id f = a_id a) fs = [])"
proof -
  from run have r: "fst (run_checks d tenant_id cu) = Inr fs"
    and d': "d' = snd (run_checks d tenant_id cu)" by simp_all
  from r obtain user where u: "get_user_by_email d cu = Some user"
    and m: "ensure_user_in_tenant d (u_id user) tenant_id = Inr ()"
    by (rule run_checks_Inr)
  have fs: "fs = fresh_rows tenant_id d"
    using run_checks_authorised(1) [OF u m] r by simp
  have query: "fs = open_findings tenant_id d'"
    unfolding d' using r by (rule run_checks_open_findings [symmetric])
  let ?as = "filter (\<lambda>a. a_tenant_id a = tenant_id) (assets d)"
  have dist: "distinct (map a_id ?as)"
    using pk by (simp add: assets_pk_def distinct_map_filter)
  have of_asset: "map finding_view (filter (\<lambda>f. f_asset_id f = a_id a) fs)
                  = map new_view (check_asset tenant_id a)"
    if "a \<in> set (assets d)" "a_tenant_id a = tenant_id" for a
  proof -
    from that have "a \<in> set ?as" by simp
    then show ?thesis
      by (simp add: fs fresh_rows_def to_add_def stamp_of_asset evaluate_of_asset dist)
  qed
  have two: "map finding_view (filter (\<lambda>f. f_asset_id f = a_id a) fs) =
          [(''low'', ''S3 bucket not tagged as production'', ''open''),
           (''medium'', ''Asset has no region set'', ''open'')]"
    if "a \<in> set (assets d)" "a_tenant_id a = tenant_id" "a_type a = ''aws_s3_bucket''"
      "a_name a = ''app-data''" "a_region a = None" for a
    using that by (simp add: of_asset check_asset_app_data)
  have none: "filter (\<lambda>f. f_asset_id f = a_id a) fs = []"
    if "a \<in> set (assets d)" "a_tenant_id a = tenant_id" "a_type a = ''aws_s3_bucket''"
      "a_name a = ''app-data-prod''" "a_region a = Some ''us-east-1''" for a
  proof -
    have "map finding_view (filter (\<lambda>f. f_asset_id f = a_id a) fs) = []"
      using that by (simp add: of_asset check_asset_app_data_prod)
    then show ?thesis by simp
  qed
  from query two none show ?thesis by blast
qed

theorem run_checks_scenario_witness:
  "run_checks ex_db 1 ''a@x.com'' = (Inr [ex_low 1 ''open'' 5, ex_medium 2 ''open'' 6], ex_checked) \<and>
   ex_bucket \<in> set (assets ex_db) \<and> ex_bucket_prod \<in> set (assets ex_db) \<and>
   map finding_view (filter (\<lambda>f. f_asset_id f = a_id ex_bucket)
       [ex_low 1 ''open'' 5, ex_medium 2 ''open'' 6]) =
     [(''low'', ''S3 bucket not tagged as production'', ''open''),
      (''medium'', ''Asset has no region set'', ''open'')] \<and>
   filter (\<lambda>f. f_asset_id f = a_id ex_bucket_prod) [ex_low 1 ''open'' 5, ex_medium 2 ''open'' 6] = []"
proof -
  have run: "run_checks ex_db 1 ''a@x.com''
             = (Inr [ex_low 1 ''open'' 5, ex_medium 2 ''open'' 6], ex_checked)"
    by (simp add: ex_run ex_checked_eq)
  have mem: "ex_bucket \<in> set (assets ex_db)" "ex_bucket_prod \<in> set (assets ex_db)"
    by (simp_all add: ex_db_eq)
  have a: "a_tenant_id ex_bucket = 1 \<and> a_type ex_bucket = ''aws_s3_bucket'' \<and>
           a_name ex_bucket = ''app-data'' \<and> a_region ex_bucket = None"
    by (simp add: ex_bucket_def)
  have b: "a_tenant_id ex_bucket_prod = 1 \<and> a_type ex_bucket_prod = ''aws_s3_bucket'' \<and>
           a_name ex_bucket_prod = ''app-data-prod'' \<and> a_region ex_bucket_prod = Some ''us-east-1''"
    by (simp add: ex_bucket_prod_def)
  from run_checks_scenario [OF run ex_db_pk] mem a b run show ?thesis
    by blast
qed

text \<open>
  C3. A run of the checks removes, of the rows it finds, only the open findings of its
  tenant: the other rows are afterwards the same rows in the same order, whether the run
  is refused or not. In particular every finding whose status is resolved or ignored, of
  this tenant or another, is still in the table, unaltered.
\<close>

theorem run_checks_preserves_triaged:
  "filter (\<lambda>f. \<not> is_open_of tenant_id f) (findings (snd (run_checks d tenant_id cu)))
   = filter (\<lambda>f. \<not> is_open_of tenant_id f) (findings d)
   \<and> (\<forall>f\<in>set (findings d). f_status f = ''resolved'' \<or> f_status f = ''ignored'' \<longrightarrow>
         f \<in> set (findings (snd (run_checks d tenant_id cu))))"
proof -
  let ?d' = "snd (run_checks d tenant_id cu)"
  have kept: "filter (\<lambda>f. \<not> is_open_of tenant_id f) (findings ?d')
              = filter (\<lambda>f. \<not> is_open_of tenant_id f) (findings d)"
  proof (cases rule: run_checks_cases [of d tenant_id cu])
    case (refused e)
    then show ?thesis by simp
  next
    case (authorised user)
    then show ?thesis
      by (simp add: run_checks_authorised fresh_rows_def to_add_def filter_not_open_stamp)
  qed
  have "f \<in> set (findings ?d')"
    if "f \<in> set (findings d)" "f_status f = ''resolved'' \<or> f_status f = ''ignored''" for f
  proof -
    from that have "f \<in> set (filter (\<lambda>f. \<not> is_open_of tenant_id f) (findings d))"
      by (simp add: triaged_not_open)
    then have "f \<in> set (filter (\<lambda>f. \<not> is_open_of tenant_id f) (findings ?d'))"
      by (simp only: kept)
    then show ?thesis by simp
  qed
  with kept show ?thesis by blast
qed

theorem run_checks_preserves_triaged_witness:
  "ex_low 1 ''resolved'' 5 \<in> set (findings ex_triaged) \<and>
   f_status (ex_low 1 ''resolved'' 5) = ''resolved'' \<and>
   ex_low 1 ''resolved'' 5 \<in> set (findings (snd (run_checks ex_triaged 1 ''a@x.com'')))"
proof -
  have here: "ex_low 1 ''resolved'' 5 \<in> set (findings ex_triaged)"
    by (simp add: ex_triaged_eq)
  have resolved: "f_status (ex_low 1 ''resolved'' 5) = ''resolved''"
    by (simp add: ex_low_def)
  from run_checks_preserves_triaged [of 1 ex_triaged "''a@x.com''"] here resolved
  have "ex_low 1 ''resolved'' 5 \<in> set (findings (snd (run_checks ex_triaged 1 ''a@x.com'')))"
    by blast
  with here resolved show ?thesis by simp
qed

text \<open>
  C4. When a run of the checks succeeds, the next run on the state it left (so with no
  change to the assets in between) succeeds too and returns findings with the same
  (asset, severity, title) tuples, in the same order, hence the same multiset of them;
  the open findings of the tenant in the table are the same in that sense after both runs.
\<close>

theorem run_checks_idempotent:
  assumes first: "run_checks d tenant_id cu = (Inr fs1, d1)"
  shows "\<exists>fs2. fst (run_checks d1 tenant_id cu) = Inr fs2 \<and>
           map finding_key fs2 = map finding_key fs1 \<and>
           map finding_key (open_findings tenant_id (snd (run_checks d1 tenant_id cu)))
             = map finding_key (open_findings tenant_id d1)"
proof -
  from first have r1: "fst (run_checks d tenant_id cu) = Inr fs1"
    and d1: "d1 = snd (run_checks d tenant_id cu)" by simp_all
  from r1 obtain user where u: "get_user_by_email d cu = Some user"
    and m: "ensure_user_in_tenant d (u_id user) tenant_id = Inr ()"
    by (rule run_checks_Inr)
  have fs1: "fs1 = fresh_rows tenant_id d"
    using run_checks_authorised(1) [OF u m] r1 by simp
  have same: "assets d1 = assets d" "users d1 = users d" "user_tenants d1 = user_tenants d"
    unfolding d1 using u m by (rule run_checks_authorised)+
  have u1: "get_user_by_email d1 cu = Some user"
    using u by (simp add: get_user_by_email_def same)
  have m1: "ensure_user_in_tenant d1 (u_id user) tenant_id = Inr ()"
    using m by (simp add: ensure_user_in_tenant_def same)
  have r2: "fst (run_checks d1 tenant_id cu) = Inr (fresh_rows tenant_id d1)"
    using u1 m1 by (rule run_checks_authorised)
  have keys: "map finding_key (fresh_rows tenant_id d1) = map finding_key (fresh_rows tenant_id d)"
    by (simp add: fresh_rows_def stamp_keys to_add_def same)
  have "open_findings tenant_id d1 = fs1"
    unfolding d1 using r1 by (rule run_checks_open_findings)
  moreover have "open_findings tenant_id (snd (run_checks d1 tenant_id cu))
                 = fresh_rows tenant_id d1"
    using r2 by (rule run_checks_open_findings)
  ultimately show ?thesis
    using r2 keys fs1 by simp
qed

theorem run_checks_idempotent_witness:
  "run_checks ex_db 1 ''a@x.com'' = (Inr [ex_low 1 ''open'' 5, ex_medium 2 ''open'' 6], ex_checked)
   \<and> (\<exists>fs2. fst (run_checks ex_checked 1 ''a@x.com'') = Inr fs2 \<and>
         map finding_key fs2 =
           [(1, ''low'', ''S3 bucket not tagged as production''),
            (1, ''medium'', ''Asset has no region set'')])"
proof -
  have first: "run_checks ex_db 1 ''a@x.com''
               = (Inr [ex_low 1 ''open'' 5, ex_medium 2 ''open'' 6], ex_checked)"
    by (simp add: ex_run ex_checked_eq)
  from run_checks_idempotent [OF first] first show ?thesis
    by (auto simp: finding_key_def ex_low_def ex_medium_def)
qed

text \<open>
  C5. Let a finding of an asset of the tenant have a status other than open, and let the
  rule that made it still match the unchanged asset. A successful run of the checks then
  leaves that row in the table and inserts a new open finding of the same tenant, asset,
  severity and title under a fresh primary key, which it also returns: after the run the
  old row and its open duplicate are both there.
\<close>

theorem run_checks_duplicates_triaged:
  assumes run: "run_checks d tenant_id cu = (Inr fs, d')"
    and old: "f \<in> set (findings d)" "f_status f \<noteq> ''open''"
    and asset: "a \<in> set (assets d)" "a_tenant_id a = tenant_id"
    and still: "n \<in> set (check_asset tenant_id a)"
    and same: "f_asset_id f = a_id a" "f_severity f = n_severity n" "f_title f = n_title n"
  shows "f \<in> set (findings d') \<and>
         (\<exists>g. g \<in> set (findings d') \<and> g \<in> set fs \<and> g \<noteq> f \<and> f_status g = ''open'' \<and>
              f_tenant_id g = tenant_id \<and> f_asset_id g = f_asset_id f \<and>
              f_severity g = f_severity f \<and> f_title g = f_title f \<and>
              findings_seq d \<le> f_id g)"
proof -
  from run have r: "fst (run_checks d tenant_id cu) = Inr fs"
    and d': "d' = snd (run_checks d tenant_id cu)" by simp_all
  from r obtain user where u: "get_user_by_email d cu = Some user"
    and m: "ensure_user_in_tenant d (u_id user) tenant_id = Inr ()"
    by (rule run_checks_Inr)
  have fs: "fs = fresh_rows tenant_id d"
    using run_checks_authorised(1) [OF u m] r by simp
  have all: "findings d' = filter (\<lambda>f. \<not> is_open_of tenant_id f) (findings d) @ fs"
    unfolding d' fs using u m by (rule run_checks_authorised)
  have kept: "f \<in> set (findings d')"
    using old by (simp add: all is_open_of_def)
  have "n \<in> set (to_add tenant_id d)"
    using asset still by (auto simp: to_add_def evaluate_concat)
  then obtain g where g: "g \<in> set fs" "f_tenant_id g = n_tenant_id n"
    "f_asset_id g = n_asset_id n" "f_severity g = n_severity n" "f_title g = n_title n"
    "f_status g = n_status n"
    unfolding fs fresh_rows_def using mem_stamp by meson
  have n: "n_tenant_id n = tenant_id" "n_asset_id n = a_id a" "n_status n = ''open''"
    using check_asset_fields [OF still] by simp_all
  have "findings_seq d \<le> f_id g"
    using g(1) stamp_fresh unfolding fs fresh_rows_def by blast
  moreover have "g \<noteq> f" using g(6) n(3) old(2) by auto
  moreover have "g \<in> set (findings d')" using g(1) by (simp add: all)
  ultimately show ?thesis
    using kept g n same by auto
qed

theorem run_checks_duplicates_triaged_witness:
  "ex_low 1 ''resolved'' 5 \<in> set (findings ex_triaged) \<and>
   ex_low 1 ''resolved'' 5 \<in> set (findings (snd (run_checks ex_triaged 1 ''a@x.com''))) \<and>
   (\<exists>g. g \<in> set (findings (snd (run_checks ex_triaged 1 ''a@x.com''))) \<and>
        g \<noteq> ex_low 1 ''resolved'' 5 \<and> f_status g = ''open'' \<and> f_asset_id g = 1 \<and>
        f_severity g = ''low'' \<and> f_title g = ''S3 bucket not tagged as production'' \<and>
        3 \<le> f_id g)"
proof -
  let ?n = "\<lparr>n_tenant_id = 1, n_asset_id = 1, n_severity = ''low'',
             n_title = ''S3 bucket not tagged as production'',
             n_description = Some low_desc, n_status = ''open''\<rparr>"
  have run: "run_checks ex_triaged 1 ''a@x.com''
             = (Inr [ex_low 3 ''open'' 7, ex_medium 4 ''open'' 8],
                snd (run_checks ex_triaged 1 ''a@x.com''))"
    by (simp add: ex_rerun)
  have old: "ex_low 1 ''resolved'' 5 \<in> set (findings ex_triaged)"
    "f_status (ex_low 1 ''resolved'' 5) \<noteq> ''open''"
    by (simp_all add: ex_triaged_eq ex_low_def)
  have asset: "ex_bucket \<in> set (assets ex_triaged)" "a_tenant_id ex_bucket = 1"
    by (simp_all add: ex_triaged_eq ex_db_eq ex_bucket_def)
  have still: "?n \<in> set (check_asset 1 ex_bucket)"
    by (simp add: handler_defs ex_row_defs)
  have same: "f_asset_id (ex_low 1 ''resolved'' 5) = a_id ex_bucket"
    "f_severity (ex_low 1 ''resolved'' 5) = n_severity ?n"
    "f_title (ex_low 1 ''resolved'' 5) = n_title ?n"
    by (simp_all add: ex_low_def ex_bucket_def)
  have seq: "findings_seq ex_triaged = 3"
    by (simp add: ex_triaged_eq)
  have sel: "f_asset_id (ex_low 1 ''resolved'' 5) = 1"
    "f_severity (ex_low 1 ''resolved'' 5) = ''low''"
    "f_title (ex_low 1 ''resolved'' 5) = ''S3 bucket not tagged as production''"
    by (simp_all add: ex_low_def)
  from run_checks_duplicates_triaged [OF run old asset still same]
  obtain g where kept:
      "ex_low 1 ''resolved'' 5 \<in> set (findings (snd (run_checks ex_triaged 1 ''a@x.com'')))"
    and g: "g \<in> set (findings (snd (run_checks ex_triaged 1 ''a@x.com'')))"
      "g \<noteq> ex_low 1 ''resolved'' 5" "f_status g = ''open''"
      "f_asset_id g = f_asset_id (ex_low 1 ''resolved'' 5)"
      "f_severity g = f_severity (ex_low 1 ''resolved'' 5)"
      "f_title g = f_title (ex_low 1 ''resolved'' 5)"
      "findings_seq ex_triaged \<le> f_id g"
    by blast
  from g have "g \<in> set (findings (snd (run_checks ex_triaged 1 ''a@x.com''))) \<and>
        g \<noteq> ex_low 1 ''resolved'' 5 \<and> f_status g = ''open'' \<and> f_asset_id g = 1 \<and>
        f_severity g = ''low'' \<and> f_title g = ''S3 bucket not tagged as production'' \<and>
        3 \<le> f_id g"
    by (simp add: sel seq)
  then show ?thesis
    using old(1) kept by blast
qed

text \<open>
  C6. What a successful run of the checks returns is the query for the tenant's open
  findings on the database it leaves, so all of them and not only the rows just inserted.
  The query asks for no order: the rows come as the table holds them, each created
  strictly before the next, oldest first. (The example shows it, and shows
  \<open>list_findings\<close>, which does ask for \<open>created_at\<close> descending, returning the same
  two rows newest first.)
\<close>

theorem run_checks_returns_oldest_first:
  assumes "run_checks d tenant_id cu = (Inr fs, d')"
  shows "fs = open_findings tenant_id d' \<and> sorted_wrt (<) (map f_created_at fs)"
proof -
  from assms have r: "fst (run_checks d tenant_id cu) = Inr fs"
    and d': "d' = snd (run_checks d tenant_id cu)" by simp_all
  from r obtain user where u: "get_user_by_email d cu = Some user"
    and m: "ensure_user_in_tenant d (u_id user) tenant_id = Inr ()"
    by (rule run_checks_Inr)
  have "fs = fresh_rows tenant_id d"
    using run_checks_authorised(1) [OF u m] r by simp
  then have "sorted_wrt (<) (map f_created_at fs)"
    by (simp add: fresh_rows_def stamp_ascending)
  moreover have "fs = open_findings tenant_id d'"
    unfolding d' using r by (rule run_checks_open_findings [symmetric])
  ultimately show ?thesis by simp
qed

theorem run_checks_returns_oldest_first_witness:
  "run_checks ex_db 1 ''a@x.com'' = (Inr [ex_low 1 ''open'' 5, ex_medium 2 ''open'' 6], ex_checked) \<and>
   [ex_low 1 ''open'' 5, ex_medium 2 ''open'' 6] = open_findings 1 ex_checked \<and>
   map f_created_at [ex_low 1 ''open'' 5, ex_medium 2 ''open'' 6] = [5, 6] \<and>
   \<not> sorted_wrt (\<ge>) (map f_created_at [ex_low 1 ''open'' 5, ex_medium 2 ''open'' 6]) \<and>
   fst (list_findings ex_checked 1 None ''a@x.com'')
     = Inr [ex_medium 2 ''open'' 6, ex_low 1 ''open'' 5]"
proof -
  have run: "run_checks ex_db 1 ''a@x.com''
             = (Inr [ex_low 1 ''open'' 5, ex_medium 2 ''open'' 6], ex_checked)"
    by (simp add: ex_run ex_checked_eq)
  have times: "map f_created_at [ex_low 1 ''open'' 5, ex_medium 2 ''open'' 6] = [5, 6]"
    by (simp add: ex_low_def ex_medium_def)
  from run_checks_returns_oldest_first [OF run] run times ex_list_findings
  show ?thesis by simp
qed

text \<open>
  C7. For a registered caller, a finding that the id finds, and a caller who is a member
  of that finding's tenant, \<open>update_finding\<close> succeeds with every string \<open>s\<close>, whether
  or not it is one of open, resolved and ignored: it returns the finding with status
  \<open>s\<close>, and the finding stored under that id afterwards is that one.
\<close>

theorem update_finding_any_status:
  assumes "get_user_by_email d cu = Some user"
    and "finding_by_id d finding_id = Some f"
    and "ensure_user_in_tenant d (u_id user) (f_tenant_id f) = Inr ()"
  shows "fst (update_finding d finding_id s cu) = Inr (f\<lparr>f_status := s\<rparr>) \<and>
         finding_by_id (snd (update_finding d finding_id s cu)) finding_id
           = Some (f\<lparr>f_status := s\<rparr>) \<and>
         f_status (f\<lparr>f_status := s\<rparr>) = s"
  using assms by (simp add: update_finding_def finding_by_id_def find_update)


theorem update_finding_any_status_witness:
  "finding_by_id ex_checked 1 = Some (ex_low 1 ''open'' 5) \<and>
   fst (update_finding ex_checked 1 ''wontfix'' ''a@x.com'') = Inr (ex_low 1 ''wontfix'' 5) \<and>
   finding_by_id (snd (update_finding ex_checked 1 ''wontfix'' ''a@x.com'')) 1
     = Some (ex_low 1 ''wontfix'' 5)"
proof -
  let ?alice = "\<lparr>u_id = 1, u_email = ''a@x.com'', u_password_hash = ''h1'',
                 u_is_active = True, u_created_at = 0\<rparr>"
  have u: "get_user_by_email ex_checked ''a@x.com'' = Some ?alice"
    by (simp add: ex_checked_users ex_users)
  have f: "finding_by_id ex_checked 1 = Some (ex_low 1 ''open'' 5)"
    by (simp add: ex_checked_eq finding_by_id_def ex_low_def)
  have m: "ensure_user_in_tenant ex_checked (u_id ?alice) (f_tenant_id (ex_low 1 ''open'' 5)) = Inr ()"
    by (simp add: ex_checked_eq ex_db_eq ensure_user_in_tenant_def ex_low_def)
  have upd: "(ex_low 1 ''open'' 5)\<lparr>f_status := ''wontfix''\<rparr> = ex_low 1 ''wontfix'' 5"
    by (simp add: ex_low_def)
  from update_finding_any_status [OF u f m, of "''wontfix''"] f show ?thesis
    by (simp add: upd)
qed

text \<open>
  C8. After any sequence of requests served from the empty database, every finding in
  the table references an asset that is in the table and has the finding's tenant id.
  And in any database, every finding that a successful run of the checks creates (the
  ones it returns) carries the tenant id of the run and references an asset of that
  tenant. (Deleting an asset takes its findings with it, by the cascading foreign key.)
\<close>

theorem findings_reference_own_tenant:
  "refs_ok (serve rs empty_db) \<and>
   (\<forall>fs. fst (run_checks d tenant_id cu) = Inr fs \<longrightarrow>
      (\<forall>f\<in>set fs. f_tenant_id f = tenant_id \<and>
         (\<exists>a\<in>set (assets (snd (run_checks d tenant_id cu))).
            a_id a = f_asset_id f \<and> a_tenant_id a = tenant_id)))"
proof -
  have "refs_ok empty_db" by (simp add: refs_ok_def empty_db_def)
  then have inv: "refs_ok (serve rs empty_db)" by (rule refs_ok_serve)
  have gen: "f_tenant_id f = tenant_id \<and>
         (\<exists>a\<in>set (assets (snd (run_checks d tenant_id cu))).
            a_id a = f_asset_id f \<and> a_tenant_id a = tenant_id)"
    if r: "fst (run_checks d tenant_id cu) = Inr fs" and f: "f \<in> set fs" for fs f
  proof -
    from r obtain user where u: "get_user_by_email d cu = Some user"
      and m: "ensure_user_in_tenant d (u_id user) tenant_id = Inr ()"
      by (rule run_checks_Inr)
    have "fs = fresh_rows tenant_id d"
      using run_checks_authorised(1) [OF u m] r by simp
    with f have "f \<in> set (fresh_rows tenant_id d)" by simp
    then show ?thesis
      using fresh_rows_refs by (simp add: run_checks_assets)
  qed
  from inv gen show ?thesis by blast
qed

theorem findings_reference_own_tenant_witness:
  "serve (ex_setup @ [RunChecks 1 ''a@x.com'']) empty_db = ex_checked \<and>
   findings ex_checked = [ex_low 1 ''open'' 5, ex_medium 2 ''open'' 6] \<and>
   refs_ok ex_checked \<and>
   fst (run_checks ex_db 1 ''a@x.com'') = Inr [ex_low 1 ''open'' 5, ex_medium 2 ''open'' 6]"
proof -
  have serve_app: "serve (xs @ ys) d = serve ys (serve xs d)" for xs ys d
    by (induction xs arbitrary: d) simp_all
  have reach: "serve (ex_setup @ [RunChecks 1 ''a@x.com'']) empty_db = ex_checked"
    by (simp only: serve_app ex_checked_def ex_db_def)
  from findings_reference_own_tenant [of "ex_setup @ [RunChecks 1 ''a@x.com'']" ex_db 1 "''a@x.com''"]
  have "refs_ok ex_checked" by (simp only: reach)
  with reach show ?thesis by (simp add: ex_checked_eq ex_run)
qed

text \<open>
  C9, as stated, fails: the run commits twice. In the example the tenant has two open
  findings before the run; the first committed state has none, and only the second has
  the two new ones.
\<close>

theorem run_checks_not_atomic:
  "open_findings 1 ex_checked = [ex_low 1 ''open'' 5, ex_medium 2 ''open'' 6] \<and>
   length (run_checks_commits ex_checked 1 ''a@x.com'') = 2 \<and>
   open_findings 1 (hd (run_checks_commits ex_checked 1 ''a@x.com'')) = [] \<and>
   open_findings 1 (last (run_checks_commits ex_checked 1 ''a@x.com''))
     = [ex_low 3 ''open'' 7, ex_medium 4 ''open'' 8]"
  by (simp add: ex_checked_eq ex_db_eq run_checks_commits_def handler_defs ex_row_defs)

text \<open>
  C9, amended. A refused run commits nothing. A successful run commits exactly two
  states: the first is the database with the tenant's open findings deleted and nothing
  inserted, so with no open finding of the tenant; the second is the first with all the
  newly generated findings appended, and is the state the run leaves. The delete is a
  transaction of its own, the inserts are another.
\<close>

theorem run_checks_two_commits:
  "(\<forall>e. fst (run_checks d tenant_id cu) = Inl e \<longrightarrow> run_checks_commits d tenant_id cu = []) \<and>
   (\<forall>fs. fst (run_checks d tenant_id cu) = Inr fs \<longrightarrow>
      (\<exists>d1. run_checks_commits d tenant_id cu = [d1, snd (run_checks d tenant_id cu)] \<and>
            findings d1 = filter (\<lambda>f. \<not> is_open_of tenant_id f) (findings d) \<and>
            open_findings tenant_id d1 = [] \<and>
            findings (snd (run_checks d tenant_id cu)) = findings d1 @ fs))"
proof -
  have two: "\<exists>d1. run_checks_commits d tenant_id cu = [d1, snd (run_checks d tenant_id cu)] \<and>
            findings d1 = filter (\<lambda>f. \<not> is_open_of tenant_id f) (findings d) \<and>
            open_findings tenant_id d1 = [] \<and>
            findings (snd (run_checks d tenant_id cu)) = findings d1 @ fs"
    if r: "fst (run_checks d tenant_id cu) = Inr fs" for fs
  proof -
    from r obtain user where u: "get_user_by_email d cu = Some user"
      and m: "ensure_user_in_tenant d (u_id user) tenant_id = Inr ()"
      by (rule run_checks_Inr)
    let ?d1 = "clear_open_findings tenant_id d"
    have fs: "fs = fresh_rows tenant_id d"
      using run_checks_authorised(1) [OF u m] r by simp
    have "run_checks_commits d tenant_id cu = [?d1, snd (run_checks d tenant_id cu)]"
      using u m by (simp add: run_checks_commits_def run_checks_def Let_def)
    moreover have "findings ?d1 = filter (\<lambda>f. \<not> is_open_of tenant_id f) (findings d)"
      by (simp add: clear_open_findings_def)
    moreover have "open_findings tenant_id ?d1 = []"
      by (simp add: open_findings_def clear_open_findings_def filter_empty_conv)
    moreover have "findings (snd (run_checks d tenant_id cu)) = findings ?d1 @ fs"
      using run_checks_authorised(2) [OF u m] by (simp add: fs clear_open_findings_def)
    ultimately show ?thesis by blast
  qed
  from two run_checks_commits_refused show ?thesis by blast
qed

theorem run_checks_two_commits_witness:
  "fst (run_checks ex_checked 1 ''a@x.com'') = Inr [ex_low 3 ''open'' 7, ex_medium 4 ''open'' 8] \<and>
   (\<exists>d1. run_checks_commits ex_checked 1 ''a@x.com'' = [d1, snd (run_checks ex_checked 1 ''a@x.com'')] \<and>
         findings d1 = [] \<and>
         findings (snd (run_checks ex_checked 1 ''a@x.com''))
           = [ex_low 3 ''open'' 7, ex_medium 4 ''open'' 8]) \<and>
   fst (run_checks ex_checked 1 ''b@x.com'') = Inl forbidden \<and>
   run_checks_commits ex_checked 1 ''b@x.com'' = []"
proof -
  have ok: "fst (run_checks ex_checked 1 ''a@x.com'') = Inr [ex_low 3 ''open'' 7, ex_medium 4 ''open'' 8]"
    by (simp add: ex_checked_eq ex_db_eq handler_defs ex_row_defs)
  have no: "fst (run_checks ex_checked 1 ''b@x.com'') = Inl forbidden"
    by (simp add: ex_checked_eq ex_db_eq handler_defs forbidden_def)
  have old: "filter (\<lambda>f. \<not> is_open_of 1 f) (findings ex_checked) = []"
    by (simp add: ex_checked_eq is_open_of_def ex_low_def ex_medium_def)
  from run_checks_two_commits [of ex_checked 1 "''a@x.com''"] ok
  obtain d1 where "run_checks_commits ex_checked 1 ''a@x.com'' = [d1, snd (run_checks ex_checked 1 ''a@x.com'')]"
    "findings d1 = filter (\<lambda>f. \<not> is_open_of 1 f) (findings ex_checked)"
    "findings (snd (run_checks ex_checked 1 ''a@x.com'')) = findings d1 @ [ex_low 3 ''open'' 7, ex_medium 4 ''open'' 8]"
    by blast
  then have "\<exists>d1. run_checks_commits ex_checked 1 ''a@x.com'' = [d1, snd (run_checks ex_checked 1 ''a@x.com'')] \<and>
         findings d1 = [] \<and>
         findings (snd (run_checks ex_checked 1 ''a@x.com''))
           = [ex_low 3 ''open'' 7, ex_medium 4 ''open'' 8]"
    using old by auto
  moreover from run_checks_two_commits [of ex_checked 1 "''b@x.com''"] no
  have "run_checks_commits ex_checked 1 ''b@x.com'' = []" by blast
  ultimately show ?thesis using ok no by blast
qed

text \<open>
  C10, as stated, fails: a nonexistent id does not always yield 404 from
  \<open>delete_asset\<close>. The path parameter is declared \<open>gt=0\<close>, so an id that is not
  positive is refused with 422 before anything is looked up.
\<close>

theorem delete_asset_nonpositive_id:
  "get_user_by_email ex_db ''b@x.com'' \<noteq> None \<and>
   asset_by_id ex_db 0 = None \<and>
   delete_asset ex_db 0 ''b@x.com'' = (Inl RequestValidationError, ex_db) \<and>
   fst (delete_asset ex_db 0 ''b@x.com'') \<noteq> Inl (HTTPException 404 ''Asset not found'')"
  by (simp add: ex_users delete_asset_def) (simp add: ex_db_eq asset_by_id_def ex_bucket_def ex_bucket_prod_def)

text \<open>
  C10, amended. For a registered caller \<open>delete_asset\<close> answers 422 to an id that is
  not positive, 404 to a positive id that finds no asset, and 403 to a positive id that
  finds an asset of a tenant the caller is not a member of; \<open>update_finding\<close> answers
  404 to an id that finds no finding and 403 to an id that finds a finding of a tenant
  the caller is not a member of. The database is unchanged in each case. The lookup comes
  before the membership check, so the answers tell the caller whether the id exists in
  another tenant.
\<close>

theorem lookup_before_membership:
  assumes u: "get_user_by_email d cu = Some user"
  shows "(\<not> 0 < asset_id \<longrightarrow> delete_asset d asset_id cu = (Inl RequestValidationError, d)) \<and>
         (0 < asset_id \<and> asset_by_id d asset_id = None \<longrightarrow>
            delete_asset d asset_id cu = (Inl (HTTPException 404 ''Asset not found''), d)) \<and>
         (\<forall>a. 0 < asset_id \<and> asset_by_id d asset_id = Some a \<and>
              ensure_user_in_tenant d (u_id user) (a_tenant_id a) \<noteq> Inr () \<longrightarrow>
            delete_asset d asset_id cu = (Inl forbidden, d)) \<and>
         (finding_by_id d finding_id = None \<longrightarrow>
            update_finding d finding_id s cu = (Inl (HTTPException 404 ''Finding not found''), d)) \<and>
         (\<forall>f. finding_by_id d finding_id = Some f \<and>
              ensure_user_in_tenant d (u_id user) (f_tenant_id f) \<noteq> Inr () \<longrightarrow>
            update_finding d finding_id s cu = (Inl forbidden, d))"
proof -
  have guard: "ensure_user_in_tenant d uid tid = Inl forbidden"
    if "ensure_user_in_tenant d uid tid \<noteq> Inr ()" for uid tid
    using that by (auto simp: ensure_user_in_tenant_def forbidden_def split: option.splits)
  show ?thesis
    using u by (auto simp: delete_asset_def update_finding_def dest: guard)
qed


theorem lookup_before_membership_witness:
  "delete_asset ex_checked 0 ''b@x.com'' = (Inl RequestValidationError, ex_checked) \<and>
   delete_asset ex_checked 7 ''b@x.com'' = (Inl (HTTPException 404 ''Asset not found''), ex_checked) \<and>
   delete_asset ex_checked 1 ''b@x.com'' = (Inl forbidden, ex_checked) \<and>
   update_finding ex_checked 7 ''resolved'' ''b@x.com''
     = (Inl (HTTPException 404 ''Finding not found''), ex_checked) \<and>
   update_finding ex_checked 1 ''resolved'' ''b@x.com'' = (Inl forbidden, ex_checked)"
proof -
  let ?bob = "\<lparr>u_id = 2, u_email = ''b@x.com'', u_password_hash = ''h2'',
               u_is_active = True, u_created_at = 1\<rparr>"
  have u: "get_user_by_email ex_checked ''b@x.com'' = Some ?bob"
    by (simp add: ex_checked_users ex_users)
  have a7: "asset_by_id ex_checked 7 = None"
    by (simp add: ex_checked_eq ex_db_eq asset_by_id_def ex_bucket_def ex_bucket_prod_def)
  have a1: "asset_by_id ex_checked 1 = Some ex_bucket"
    by (simp add: ex_checked_eq ex_db_eq asset_by_id_def ex_bucket_def)
  have f7: "finding_by_id ex_checked 7 = None"
    by (simp add: ex_checked_eq finding_by_id_def ex_low_def ex_medium_def)
  have f1: "finding_by_id ex_checked 1 = Some (ex_low 1 ''open'' 5)"
    by (simp add: ex_checked_eq finding_by_id_def ex_low_def)
  have g: "ensure_user_in_tenant ex_checked (u_id ?bob) (a_tenant_id ex_bucket) \<noteq> Inr ()"
    "ensure_user_in_tenant ex_checked (u_id ?bob) (f_tenant_id (ex_low 1 ''open'' 5)) \<noteq> Inr ()"
    by (simp_all add: ex_checked_eq ex_db_eq ensure_user_in_tenant_def ex_bucket_def ex_low_def)
  from lookup_before_membership [OF u, of 0 7 "''resolved''"]
       lookup_before_membership [OF u, of 7 1 "''resolved''"]
       lookup_before_membership [OF u, of 1 1 "''resolved''"] a7 a1 f7 f1 g
  show ?thesis by simp
qed

end
